theory Spec2Isabelle
  imports Main "HOL-Library.Sublist"
begin

section \<open>Values of the configuration tree\<close>

text \<open>
  The exceptions the modelled code can raise. \<open>NotModelled\<close> marks the places where the
  Python does something this development does not follow (format conversions and format
  specifications, attribute and index access in a placeholder, calling a class object with the
  environment).
\<close>

datatype error =
    TypeError | IndexError | KeyError | ValueError | AssertionError | AttributeError | NotModelled

text \<open>
  Values held by the environment: unset (\<open>None\<close>), a string or a boolean. A truthy one is
  formatted with \<open>str\<close>.
\<close>

datatype raw = RNone | RStr string | RBool bool

text \<open>
  The callables a \<open>Transform\<close> pairs with its value: the class \<open>Requires\<close> (the fallback of
  \<open>_get_transform\<close>), the default \<open>lambda x: x\<close> of the named tuple, and any other function,
  known by its identity.
\<close>

datatype transform = TRequires | TIdentity | TCustom nat

text \<open>
  Python values as the builder and the visitor see them. A \<open>dict\<close> is an association list in
  insertion order with string keys; \<open>PRequires template confirmed sanitizer kwargs\<close> is an
  instance of \<open>Requires\<close>, its sanitizer a function known by its identity; \<open>PMultiple\<close> is an
  instance of \<open>MultipleValues\<close> with its \<open>_values\<close>; \<open>PCallable\<close> is any other callable object,
  known by its identity; \<open>PFun\<close> is one of the transform callables taken as a value;
  \<open>PTransform\<close> is the named tuple \<open>Transform(value, transform)\<close>.
\<close>

datatype pyval =
    PNone
  | PStr string
  | PList "pyval list"
  | PDict "(string \<times> pyval) list"
  | PRequires pyval bool "nat option" "(string \<times> raw) list"
  | PMultiple "pyval list"
  | PCallable nat
  | PFun transform
  | PTransform pyval transform

text \<open>Which of the two modules a method is taken from, where they differ.\<close>

datatype module = Utils | Templates

subsection \<open>Equality\<close>

text \<open>
  \<open>==\<close> on two keyword dictionaries of a \<open>Requires\<close>: the same number of entries, and every key
  of the first bound to an equal value in the second.
\<close>

definition kwargs_eq :: "(string \<times> raw) list \<Rightarrow> (string \<times> raw) list \<Rightarrow> bool" where
  "kwargs_eq a b = (length a = length b \<and> list_all (\<lambda>(k, v). map_of b k = Some v) a)"

text \<open>
  Python's \<open>==\<close>. Lists, tuples and \<open>_values\<close> compare elementwise, dictionaries regardless of
  order; \<open>Requires.__eq__\<close> and \<open>MultipleValues.__eq__\<close> are \<open>attrs_eq\<close> on their attributes,
  which is \<open>False\<close> when the other object lacks one of them; functions compare by identity.
\<close>

fun py_eq :: "pyval \<Rightarrow> pyval \<Rightarrow> bool" where
  "py_eq PNone PNone = True"
| "py_eq (PStr a) (PStr b) = (a = b)"
| "py_eq (PList xs) (PList ys) = list_all2 py_eq xs ys"
| "py_eq (PDict xs) (PDict ys) =
     (length xs = length ys \<and>
      list_all (\<lambda>(k, v). case map_of ys k of None \<Rightarrow> False | Some w \<Rightarrow> py_eq v w) xs)"
| "py_eq (PRequires t c s kw) (PRequires t' c' s' kw') =
     (py_eq t t' \<and> c = c' \<and> s = s' \<and> kwargs_eq kw kw')"
| "py_eq (PMultiple xs) (PMultiple ys) = list_all2 py_eq xs ys"
| "py_eq (PCallable m) (PCallable n) = (m = n)"
| "py_eq (PFun f) (PFun g) = (f = g)"
| "py_eq (PTransform v f) (PTransform w g) = (py_eq v w \<and> f = g)"
| "py_eq _ _ = False"

subsection \<open>Type tests\<close>

definition is_nonstring_sequence :: "pyval \<Rightarrow> bool" where
  "is_nonstring_sequence obj =
     (case obj of PList _ \<Rightarrow> True | PTransform _ _ \<Rightarrow> True | _ \<Rightarrow> False)"

definition is_mapping :: "pyval \<Rightarrow> bool" where
  "is_mapping obj = (case obj of PDict _ \<Rightarrow> True | _ \<Rightarrow> False)"

definition callable :: "pyval \<Rightarrow> bool" where
  "callable obj =
     (case obj of
        PRequires _ _ _ _ \<Rightarrow> True
      | PMultiple _ \<Rightarrow> True
      | PCallable _ \<Rightarrow> True
      | PFun _ \<Rightarrow> True
      | _ \<Rightarrow> False)"

definition is_multiple :: "pyval \<Rightarrow> bool" where
  "is_multiple obj = (case obj of PMultiple _ \<Rightarrow> True | _ \<Rightarrow> False)"

text \<open>Iterating a sequence: a list gives its elements, the named tuple its two fields.\<close>

definition py_iter :: "pyval \<Rightarrow> pyval list" where
  "py_iter obj =
     (case obj of PList xs \<Rightarrow> xs | PTransform v t \<Rightarrow> [v, PFun t] | _ \<Rightarrow> [])"

section \<open>Conflict sets\<close>

text \<open>
  \<open>MultipleValues.__init__(head, tail)\<close>, the same in both modules:
  \<open>[head] + tail._values if isinstance(tail, MultipleValues) else [head, tail]\<close>.
\<close>

definition MultipleValues_init :: "pyval \<Rightarrow> pyval \<Rightarrow> pyval" where
  "MultipleValues_init head tail =
     (case tail of PMultiple values \<Rightarrow> PMultiple (head # values) | _ \<Rightarrow> PMultiple [head, tail])"

section \<open>The builder\<close>

text \<open>
  \<open>TemplateDict._get_transform(value, transform=None)\<close>: a \<open>Transform\<close> is returned as it is,
  anything else is paired with \<open>transform\<close>, or with \<open>Requires\<close> when there is none. The
  method of \<open>utils.py\<close> has no second parameter and is \<open>get_transform value None\<close>.
\<close>

definition get_transform :: "pyval \<Rightarrow> transform option \<Rightarrow> pyval \<times> transform" where
  "get_transform value transform =
     (case value of
        PTransform v t \<Rightarrow> (v, t)
      | _ \<Rightarrow> (value, (case transform of None \<Rightarrow> TRequires | Some t \<Rightarrow> t)))"

text \<open>
  Calling a transform on a value. \<open>Requires(value)\<close> builds the expression with the defaults
  \<open>confirmed=False\<close>, \<open>sanitizer=None\<close> and no keyword; the functions known by identity are
  read from \<open>ext\<close>.
\<close>

definition apply_transform :: "(nat \<Rightarrow> pyval \<Rightarrow> pyval) \<Rightarrow> transform \<Rightarrow> pyval \<Rightarrow> pyval" where
  "apply_transform ext transform value =
     (case transform of
        TRequires \<Rightarrow> PRequires value False None []
      | TIdentity \<Rightarrow> value
      | TCustom n \<Rightarrow> ext n value)"

text \<open>\<open>TemplateDict._get_value(value, transform)\<close>.\<close>

definition get_value :: "(nat \<Rightarrow> pyval \<Rightarrow> pyval) \<Rightarrow> pyval \<Rightarrow> transform \<Rightarrow> pyval" where
  "get_value ext value transform =
     (case value of
        PTransform v t \<Rightarrow> apply_transform ext t v
      | _ \<Rightarrow> if callable value then value else apply_transform ext transform value)"

text \<open>\<open>d[key] = value\<close> on a dictionary: a known key keeps its place, a new one goes last.\<close>

fun dict_set :: "('k \<times> 'v) list \<Rightarrow> 'k \<Rightarrow> 'v \<Rightarrow> ('k \<times> 'v) list" where
  "dict_set [] key value = [(key, value)]"
| "dict_set ((k, v) # kvs) key value =
     (if k = key then (k, value) # kvs else (k, v) # dict_set kvs key value)"

text \<open>
  Whether \<open>hash\<close> accepts the object: lists and dictionaries are not hashable, nor are the
  instances of \<open>Requires\<close> and \<open>MultipleValues\<close>, whose classes define \<open>__eq__\<close> alone; a
  tuple is hashable when its items are.
\<close>

fun hashable :: "pyval \<Rightarrow> bool" where
  "hashable (PList xs) = False"
| "hashable (PDict kvs) = False"
| "hashable (PRequires t c s kw) = False"
| "hashable (PMultiple vs) = False"
| "hashable (PTransform v t) = hashable v"
| "hashable _ = True"

text \<open>
  \<open>v in container\<close> for the object found in the slot of a sequence assignment: membership by
  \<open>==\<close> in a list or a tuple, substring test in a string (a \<open>TypeError\<close> when \<open>v\<close> is not a
  string), key lookup in a dictionary (a \<open>TypeError\<close> when \<open>v\<close> is not hashable), and a
  \<open>TypeError\<close> on an object that is not iterable.
\<close>

definition py_contains :: "pyval \<Rightarrow> pyval \<Rightarrow> error + bool" where
  "py_contains container v =
     (case container of
        PList xs \<Rightarrow> Inr (list_ex (\<lambda>x. py_eq x v) xs)
      | PTransform c t \<Rightarrow> Inr (py_eq c v \<or> py_eq (PFun t) v)
      | PStr s \<Rightarrow> (case v of PStr u \<Rightarrow> Inr (sublist u s) | _ \<Rightarrow> Inl TypeError)
      | PDict kvs \<Rightarrow>
          (if hashable v then (case v of PStr u \<Rightarrow> Inr (u \<in> fst ` set kvs) | _ \<Rightarrow> Inr False)
           else Inl TypeError)
      | _ \<Rightarrow> Inl TypeError)"

text \<open>
  The loop \<open>for v in value: if v not in config[key]: config[key].append(_get_value(v, transform))\<close>.
  The membership test is on the value as assigned, the element appended is the transformed one.
  Only a list has \<open>append\<close>.
\<close>

fun append_new ::
  "(nat \<Rightarrow> pyval \<Rightarrow> pyval) \<Rightarrow> transform \<Rightarrow> pyval \<Rightarrow> pyval list \<Rightarrow> error + pyval" where
  "append_new ext transform cur [] = Inr cur"
| "append_new ext transform cur (v # vs) =
     (case py_contains cur v of
        Inl e \<Rightarrow> Inl e
      | Inr True \<Rightarrow> append_new ext transform cur vs
      | Inr False \<Rightarrow>
          (case cur of
             PList xs \<Rightarrow> append_new ext transform (PList (xs @ [get_value ext v transform])) vs
           | _ \<Rightarrow> Inl AttributeError))"

text \<open>
  The end of \<open>__setitem__\<close>, at the last key and in the dictionary \<open>config\<close> reached by the
  others: the sequence branch with its assertion, and the scalar branch, where a slot holding a
  different value becomes \<open>MultipleValues(value, config[key])\<close>.
\<close>

definition assign_last ::
  "(nat \<Rightarrow> pyval \<Rightarrow> pyval) \<Rightarrow> (string \<times> pyval) list \<Rightarrow> string \<Rightarrow> pyval \<Rightarrow> transform \<Rightarrow>
     error + (string \<times> pyval) list" where
  "assign_last ext config key value transform =
     (if is_nonstring_sequence value then
        (let cur = (case map_of config key of None \<Rightarrow> PList [] | Some c \<Rightarrow> c) in
         if is_mapping cur then Inl AssertionError
         else
           (case append_new ext transform cur (py_iter value) of
              Inl e \<Rightarrow> Inl e
            | Inr cur' \<Rightarrow> Inr (dict_set config key cur')))
      else
        (let value' = get_value ext value transform in
         case map_of config key of
           Some cur \<Rightarrow>
             if \<not> py_eq cur value' then Inr (dict_set config key (MultipleValues_init value' cur))
             else Inr config
         | None \<Rightarrow> Inr (dict_set config key value')))"

text \<open>
  \<open>__setitem__\<close> after the mapping branch: the walk over \<open>keys[:-1]\<close>, which creates the
  dictionaries that are missing, then the last key. \<open>keys[-1]\<close> of an empty tuple is an
  \<open>IndexError\<close>. An object on the way that is not a dictionary ends in a \<open>TypeError\<close>, whether
  the membership test, the item assignment or the indexing raises it. The tree is returned
  updated; what was already written when an exception is raised is not kept.
\<close>

fun assign ::
  "(nat \<Rightarrow> pyval \<Rightarrow> pyval) \<Rightarrow> pyval \<Rightarrow> string list \<Rightarrow> pyval \<Rightarrow> transform \<Rightarrow> error + pyval" where
  "assign ext config [] value transform = Inl IndexError"
| "assign ext config [key] value transform =
     (case config of
        PDict kvs \<Rightarrow>
          (case assign_last ext kvs key value transform of
             Inl e \<Rightarrow> Inl e
           | Inr kvs' \<Rightarrow> Inr (PDict kvs'))
      | _ \<Rightarrow> Inl TypeError)"
| "assign ext config (key # keys) value transform =
     (case config of
        PDict kvs \<Rightarrow>
          (case assign ext (case map_of kvs key of None \<Rightarrow> PDict [] | Some c \<Rightarrow> c)
                  keys value transform of
             Inl e \<Rightarrow> Inl e
           | Inr c' \<Rightarrow> Inr (PDict (dict_set kvs key c')))
      | _ \<Rightarrow> Inl TypeError)"

text \<open>
  What the mapping branch assigns for an item \<open>v\<close>: \<open>Transform(v, transform)\<close> in \<open>utils.py\<close>,
  \<open>self._get_transform(v, transform)\<close> in \<open>templates.py\<close>, which keeps an item that is already
  a \<open>Transform\<close>.
\<close>

definition wrap_item :: "module \<Rightarrow> pyval \<Rightarrow> transform \<Rightarrow> pyval" where
  "wrap_item m v transform =
     (case m of
        Utils \<Rightarrow> PTransform v transform
      | Templates \<Rightarrow> (case v of PTransform _ _ \<Rightarrow> v | _ \<Rightarrow> PTransform v transform))"

text \<open>
  \<open>TemplateDict.__setitem__(keys, value)\<close> on the tree \<open>data\<close>, with \<open>keys\<close> already a tuple.
  \<open>setitem_items\<close> is the loop of the mapping branch over \<open>value.items()\<close>.
\<close>

function setitem ::
    "module \<Rightarrow> (nat \<Rightarrow> pyval \<Rightarrow> pyval) \<Rightarrow> pyval \<Rightarrow> string list \<Rightarrow> pyval \<Rightarrow> error + pyval"
  and setitem_items ::
    "module \<Rightarrow> (nat \<Rightarrow> pyval \<Rightarrow> pyval) \<Rightarrow> pyval \<Rightarrow> string list \<Rightarrow> transform \<Rightarrow>
       (string \<times> pyval) list \<Rightarrow> error + pyval" where
  "setitem m ext data keys value0 =
     (case get_transform value0 None of
        (value, transform) \<Rightarrow>
          (case value of
             PDict items \<Rightarrow> setitem_items m ext data keys transform items
           | _ \<Rightarrow> assign ext data keys value transform))"
| "setitem_items m ext data keys transform [] = Inr data"
| "setitem_items m ext data keys transform ((k, v) # items) =
     (case setitem m ext data (keys @ [k]) (wrap_item m v transform) of
        Inl e \<Rightarrow> Inl e
      | Inr data' \<Rightarrow> setitem_items m ext data' keys transform items)"
  by pat_completeness auto
termination
  by (relation "measure (\<lambda>x. case x of
         Inl (m, ext, data, keys, value0) \<Rightarrow> 2 * size (fst (get_transform value0 None)) + 2
       | Inr (m, ext, data, keys, transform, items) \<Rightarrow>
           2 * size_list (size_prod (\<lambda>_. 0) size) items + 1)")
     (auto simp: get_transform_def wrap_item_def split: pyval.splits module.splits)

section \<open>The environment\<close>

text \<open>
  Modelled from the spec: the class \<open>Environment\<close> and its \<open>EnvValue\<close> records are not among
  the sources. An environment maps a name to a raw value and its \<open>confirmed\<close> flag. The code
  reads it with \<open>pull\<close> (and by indexing, in \<open>templates.py\<close>), writes it with \<open>push\<close> (and by
  item assignment, in \<open>templates.py\<close>). A name is a string; \<open>templates.py\<close> can also index
  with \<open>None\<close>, so the keys are optional strings.
\<close>

type_synonym env = "string option \<Rightarrow> (raw \<times> bool) option"

text \<open>
  Modelled from the spec: \<open>pull(name)\<close> returns the current raw value and creates an unset
  entry when the name is unknown. Indexing the environment is the same operation.
\<close>

definition pull :: "env \<Rightarrow> string option \<Rightarrow> raw \<times> env" where
  "pull environment name =
     (case environment name of
        None \<Rightarrow> (RNone, environment(name \<mapsto> (RNone, False)))
      | Some (v, c) \<Rightarrow> (v, environment))"

text \<open>
  Modelled from the spec: \<open>push(name, value, confirmed)\<close> sets the value only if the name is
  unset, or if \<open>confirmed\<close> upgrades an unconfirmed value.
\<close>

definition push :: "env \<Rightarrow> string option \<Rightarrow> raw \<Rightarrow> bool \<Rightarrow> env" where
  "push environment name v confirmed =
     (case environment name of
        None \<Rightarrow> environment(name \<mapsto> (v, confirmed))
      | Some (v0, c0) \<Rightarrow>
          if v0 = RNone \<or> (confirmed \<and> \<not> c0) then environment(name \<mapsto> (v, confirmed))
          else environment)"

text \<open>
  Modelled from the spec: the environment has no other write than \<open>push\<close>, and the step of
  the resolution that \<open>templates.py\<close> writes \<open>environment[name] = EnvValue(value,
  confirmed=confirmed)\<close> is, in the spec, that push.
\<close>

definition env_setitem :: "env \<Rightarrow> string option \<Rightarrow> raw \<Rightarrow> bool \<Rightarrow> env" where
  "env_setitem environment name v confirmed = push environment name v confirmed"

text \<open>\<open>not v\<close> is the negation of this.\<close>

fun truthy :: "raw \<Rightarrow> bool" where
  "truthy RNone = False"
| "truthy (RStr s) = (s \<noteq> [])"
| "truthy (RBool b) = b"

fun py_str :: "raw \<Rightarrow> string" where
  "py_str RNone = ''None''"
| "py_str (RStr s) = s"
| "py_str (RBool b) = (if b then ''True'' else ''False'')"

section \<open>Format strings\<close>

text \<open>
  \<open>string.Formatter().parse\<close> of the Python library, as a machine reading one character at a
  time. An item is \<open>(literal_text, field)\<close>, the field absent (\<open>None\<close> for the three other
  components in Python) or \<open>(field_name, format_spec, conversion)\<close>. The states are: in literal
  text; after a \<open>{\<close>; after a \<open>}\<close>; in a field name; inside the brackets of a field name;
  after \<open>!\<close>; after the conversion character; in a format specification, with the depth of
  its braces. A malformed string is a \<open>ValueError\<close>.
\<close>

type_synonym item = "string \<times> (string \<times> string \<times> char option) option"

datatype pstate =
    SLit string
  | SOpen string
  | SClose string
  | SName string string
  | SBracket string string
  | SConv string string
  | SAfterConv string string char
  | SSpec string string "char option" string nat

fun pstep :: "pstate \<Rightarrow> char \<Rightarrow> error + (item list \<times> pstate)" where
  "pstep (SLit lit) c =
     (if c = CHR ''{'' then Inr ([], SOpen lit)
      else if c = CHR ''}'' then Inr ([], SClose lit)
      else Inr ([], SLit (lit @ [c])))"
| "pstep (SOpen lit) c =
     (if c = CHR ''{'' then Inr ([(lit @ ''{'', None)], SLit [])
      else if c = CHR ''['' then Inr ([], SBracket lit ''['')
      else if c = CHR ''}'' then Inr ([(lit, Some ([], [], None))], SLit [])
      else if c = CHR '':'' then Inr ([], SSpec lit [] None [] 1)
      else if c = CHR ''!'' then Inr ([], SConv lit [])
      else Inr ([], SName lit [c]))"
| "pstep (SClose lit) c =
     (if c = CHR ''}'' then Inr ([(lit @ ''}'', None)], SLit []) else Inl ValueError)"
| "pstep (SName lit name) c =
     (if c = CHR ''{'' then Inl ValueError
      else if c = CHR ''['' then Inr ([], SBracket lit (name @ ''[''))
      else if c = CHR ''}'' then Inr ([(lit, Some (name, [], None))], SLit [])
      else if c = CHR '':'' then Inr ([], SSpec lit name None [] 1)
      else if c = CHR ''!'' then Inr ([], SConv lit name)
      else Inr ([], SName lit (name @ [c])))"
| "pstep (SBracket lit name) c =
     (if c = CHR '']'' then Inr ([], SName lit (name @ '']''))
      else Inr ([], SBracket lit (name @ [c])))"
| "pstep (SConv lit name) c = Inr ([], SAfterConv lit name c)"
| "pstep (SAfterConv lit name conv) c =
     (if c = CHR ''}'' then Inr ([(lit, Some (name, [], Some conv))], SLit [])
      else if c = CHR '':'' then Inr ([], SSpec lit name (Some conv) [] 1)
      else Inl ValueError)"
| "pstep (SSpec lit name conv spec depth) c =
     (if c = CHR ''{'' then Inr ([], SSpec lit name conv (spec @ ''{'') (depth + 1))
      else if c = CHR ''}'' then
        (if depth = 1 then Inr ([(lit, Some (name, spec, conv))], SLit [])
         else Inr ([], SSpec lit name conv (spec @ ''}'') (depth - 1)))
      else Inr ([], SSpec lit name conv (spec @ [c]) depth))"

fun prun :: "pstate \<Rightarrow> string \<Rightarrow> error + item list" where
  "prun st [] =
     (case st of
        SLit lit \<Rightarrow> Inr (if lit = [] then [] else [(lit, None)])
      | _ \<Rightarrow> Inl ValueError)"
| "prun st (c # cs) =
     (case pstep st c of
        Inl e \<Rightarrow> Inl e
      | Inr (out, st') \<Rightarrow>
          (case prun st' cs of Inl e \<Rightarrow> Inl e | Inr items \<Rightarrow> Inr (out @ items)))"

definition formatter_parse :: "string \<Rightarrow> error + item list" where
  "formatter_parse template = prun (SLit []) template"

text \<open>\<open>item[1]\<close>, the field name of an item, \<open>None\<close> for literal text alone.\<close>

definition field_name :: "item \<Rightarrow> string option" where
  "field_name it = map_option fst (snd it)"

text \<open>
  \<open>template.format(**args)\<close> of the Python library, for one field and for the items of a
  template. The name up to its first \<open>.\<close> or \<open>[\<close> is looked up in \<open>args\<close>; an empty or numeric
  one is a positional index, out of range since there is no positional argument. A value found
  is formatted with \<open>str\<close>. Attribute and index access, conversions and format specifications
  are not followed, nor are numeric names too long for an index.
\<close>

definition format_field :: "(string \<times> raw) list \<Rightarrow> string \<times> string \<times> char option \<Rightarrow> error + string" where
  "format_field args fld =
     (case fld of (name, spec, conv) \<Rightarrow>
        (let first = takeWhile (\<lambda>c. c \<noteq> CHR ''.'' \<and> c \<noteq> CHR ''['') name in
         if first = [] then Inl IndexError
         else if list_all (\<lambda>c. c \<in> set ''0123456789'') first then
           (if length first \<le> 18 then Inl IndexError else Inl NotModelled)
         else
           (case map_of args first of
              None \<Rightarrow> Inl KeyError
            | Some v \<Rightarrow>
                if first \<noteq> name \<or> spec \<noteq> [] \<or> conv \<noteq> None then Inl NotModelled
                else Inr (py_str v))))"

fun format_items :: "(string \<times> raw) list \<Rightarrow> item list \<Rightarrow> error + string" where
  "format_items args [] = Inr []"
| "format_items args ((lit, None) # items) =
     (case format_items args items of Inl e \<Rightarrow> Inl e | Inr s \<Rightarrow> Inr (lit @ s))"
| "format_items args ((lit, Some fld) # items) =
     (case format_field args fld of
        Inl e \<Rightarrow> Inl e
      | Inr v \<Rightarrow> (case format_items args items of Inl e \<Rightarrow> Inl e | Inr s \<Rightarrow> Inr (lit @ v @ s)))"

definition str_format :: "string \<Rightarrow> (string \<times> raw) list \<Rightarrow> error + string" where
  "str_format template args =
     (case formatter_parse template of Inl e \<Rightarrow> Inl e | Inr items \<Rightarrow> format_items args items)"

section \<open>Resolving an expression\<close>

text \<open>
  What resolution needs from outside: the sanitizers and the other callables, known by
  identity, the prompter behind \<open>click.prompt\<close>, which is given the candidates in order and
  returns one, and the order in which Python iterates a set of keys, which the language does
  not fix: \<open>set_order\<close> is given the keys without repetition and returns them arranged.
\<close>

record world =
  sanitize :: "nat \<Rightarrow> string option \<Rightarrow> raw \<Rightarrow> raw"
  external_call :: "nat \<Rightarrow> env \<Rightarrow> pyval \<times> env"
  prompt :: "pyval list \<Rightarrow> pyval"
  set_order :: "string option list \<Rightarrow> string option list"

text \<open>The order of a set is an arrangement of its elements.\<close>

definition arranges :: "world \<Rightarrow> bool" where
  "arranges w =
     (\<forall>keys. distinct keys \<longrightarrow> distinct (set_order w keys) \<and> set (set_order w keys) = set keys)"

definition sanitized :: "world \<Rightarrow> nat option \<Rightarrow> string option \<Rightarrow> raw \<Rightarrow> raw" where
  "sanitized w sanitizer key v = (case sanitizer of None \<Rightarrow> v | Some n \<Rightarrow> sanitize w n key v)"

subsection \<open>\<open>Requires.__call__\<close> of \<open>utils.py\<close>\<close>

text \<open>
  The first loop: every item of the parsed template whose key is a keyword of the expression
  is pushed.
\<close>

fun push_kwargs :: "env \<Rightarrow> (string \<times> raw) list \<Rightarrow> bool \<Rightarrow> item list \<Rightarrow> env" where
  "push_kwargs environment kwargs confirmed [] = environment"
| "push_kwargs environment kwargs confirmed (it # items) =
     (case field_name it of
        None \<Rightarrow> push_kwargs environment kwargs confirmed items
      | Some key \<Rightarrow>
          (case map_of kwargs key of
             None \<Rightarrow> push_kwargs environment kwargs confirmed items
           | Some v \<Rightarrow> push_kwargs (push environment (Some key) v confirmed) kwargs confirmed items))"

text \<open>
  The dictionary comprehension \<open>args\<close>: every key that is not \<open>None\<close> is pulled, sanitized
  when there is a sanitizer, and stored; a key met again is pulled again and overwrites its
  entry.
\<close>

fun pull_args ::
  "world \<Rightarrow> nat option \<Rightarrow> env \<Rightarrow> (string \<times> raw) list \<Rightarrow> item list \<Rightarrow> (string \<times> raw) list \<times> env" where
  "pull_args w sanitizer environment args [] = (args, environment)"
| "pull_args w sanitizer environment args (it # items) =
     (case field_name it of
        None \<Rightarrow> pull_args w sanitizer environment args items
      | Some key \<Rightarrow>
          (case pull environment (Some key) of
             (v, environment') \<Rightarrow>
               pull_args w sanitizer environment'
                 (dict_set args key (sanitized w sanitizer (Some key) v)) items))"

definition Requires_call ::
  "world \<Rightarrow> env \<Rightarrow> pyval \<Rightarrow> bool \<Rightarrow> nat option \<Rightarrow> (string \<times> raw) list \<Rightarrow> error + (pyval \<times> env)" where
  "Requires_call w environment template confirmed sanitizer kwargs =
     (case template of
        PStr t \<Rightarrow>
          (case formatter_parse t of
             Inl e \<Rightarrow> Inl e
           | Inr items \<Rightarrow>
               (case pull_args w sanitizer (push_kwargs environment kwargs confirmed items) [] items of
                  (args, environment') \<Rightarrow>
                    if list_ex (\<lambda>(k, v). \<not> truthy v) args then Inr (PNone, environment')
                    else
                      (case str_format t args of
                         Inl e \<Rightarrow> Inl e
                       | Inr s \<Rightarrow> Inr (PStr s, environment'))))
      | _ \<Rightarrow> Inl TypeError)"

subsection \<open>\<open>RenderContext\<close> of \<open>templates.py\<close>\<close>

text \<open>
  \<open>RenderContext.__getitem__(key)\<close>: the environment is indexed, which creates a missing key; a
  falsy value raises \<open>ValueError\<close>. The environment is returned in both cases.
\<close>

definition RenderContext_getitem ::
  "world \<Rightarrow> nat option \<Rightarrow> env \<Rightarrow> string option \<Rightarrow> (error + raw) \<times> env" where
  "RenderContext_getitem w sanitizer environment key =
     (case pull environment key of
        (v, environment') \<Rightarrow>
          if \<not> truthy v then (Inl ValueError, environment')
          else (Inr (sanitized w sanitizer key v), environment'))"

text \<open>
  The loop \<open>for key in self: if key in kwargs: self.data[key] = EnvValue(kwargs[key], ...)\<close>.
\<close>

fun set_kwargs :: "env \<Rightarrow> (string \<times> raw) list \<Rightarrow> bool \<Rightarrow> string option list \<Rightarrow> env" where
  "set_kwargs environment kwargs confirmed [] = environment"
| "set_kwargs environment kwargs confirmed (None # keys) =
     set_kwargs environment kwargs confirmed keys"
| "set_kwargs environment kwargs confirmed (Some key # keys) =
     (case map_of kwargs key of
        None \<Rightarrow> set_kwargs environment kwargs confirmed keys
      | Some v \<Rightarrow> set_kwargs (env_setitem environment (Some key) v confirmed) kwargs confirmed keys)"

text \<open>
  Unpacking \<open>**self\<close>: the keys of the context are read one after the other with
  \<open>__getitem__\<close> into a dictionary, and the first exception ends it.
\<close>

fun unpack_context ::
  "world \<Rightarrow> nat option \<Rightarrow> env \<Rightarrow> string option list \<Rightarrow>
     (error + (string option \<times> raw) list) \<times> env" where
  "unpack_context w sanitizer environment [] = (Inr [], environment)"
| "unpack_context w sanitizer environment (key # keys) =
     (case RenderContext_getitem w sanitizer environment key of
        (Inl e, environment') \<Rightarrow> (Inl e, environment')
      | (Inr v, environment') \<Rightarrow>
          (case unpack_context w sanitizer environment' keys of
             (Inl e, environment'') \<Rightarrow> (Inl e, environment'')
           | (Inr kvs, environment'') \<Rightarrow> (Inr ((key, v) # kvs), environment'')))"

text \<open>The entries of the unpacked dictionary that a field name can reach, those under a string.\<close>

fun string_keywords :: "(string option \<times> raw) list \<Rightarrow> (string \<times> raw) list" where
  "string_keywords [] = []"
| "string_keywords ((None, v) # kvs) = string_keywords kvs"
| "string_keywords ((Some k, v) # kvs) = (k, v) # string_keywords kvs"

text \<open>
  \<open>RenderContext(environment, confirmed, sanitizer).render_string(template, **kwargs)\<close>.
  \<open>_keys\<close> is the set of the \<open>item[1]\<close>, \<open>None\<close> among them when an item is literal text alone;
  it is iterated, both times, in the order the world gives to a set.
  A \<open>ValueError\<close> raised under \<open>contextlib.suppress\<close> makes the method return \<open>None\<close>; the
  exceptions of the parse, before it, are not suppressed. \<open>str.format\<close> is a built-in method
  and takes the dictionary as it is: a value stored under the key \<open>None\<close> is never looked up.
\<close>

definition render_string ::
  "world \<Rightarrow> env \<Rightarrow> bool \<Rightarrow> nat option \<Rightarrow> pyval \<Rightarrow> (string \<times> raw) list \<Rightarrow> error + (pyval \<times> env)" where
  "render_string w environment confirmed sanitizer template kwargs =
     (case template of
        PStr t \<Rightarrow>
          (case formatter_parse t of
             Inl e \<Rightarrow> Inl e
           | Inr items \<Rightarrow>
               (let keys = set_order w (remdups (map field_name items)) in
                case unpack_context w sanitizer (set_kwargs environment kwargs confirmed keys) keys of
                  (Inl e, environment') \<Rightarrow>
                    if e = ValueError then Inr (PNone, environment') else Inl e
                | (Inr kvs, environment') \<Rightarrow>
                    (case str_format t (string_keywords kvs) of
                       Inl e \<Rightarrow> if e = ValueError then Inr (PNone, environment') else Inl e
                     | Inr s \<Rightarrow> Inr (PStr s, environment'))))
      | _ \<Rightarrow> Inl TypeError)"

section \<open>Calling the leaves\<close>

text \<open>
  \<open>value(environment)\<close> for the objects of the tree. A \<open>Requires\<close> is resolved by the method of
  the module it comes from; \<open>MultipleValues.__call__\<close>, the same in both modules, resolves the
  candidates that are callable in order and hands the list to the prompter; another callable
  is read from the world. Calling a transform with the environment is not followed, and
  calling an object that is not callable is a \<open>TypeError\<close>.
\<close>

fun py_call :: "module \<Rightarrow> world \<Rightarrow> env \<Rightarrow> pyval \<Rightarrow> error + (pyval \<times> env)"
  and call_values :: "module \<Rightarrow> world \<Rightarrow> env \<Rightarrow> pyval list \<Rightarrow> error + (pyval list \<times> env)" where
  "py_call m w environment (PRequires template confirmed sanitizer kwargs) =
     (case m of
        Utils \<Rightarrow> Requires_call w environment template confirmed sanitizer kwargs
      | Templates \<Rightarrow> render_string w environment confirmed sanitizer template kwargs)"
| "py_call m w environment (PMultiple values) =
     (case call_values m w environment values of
        Inl e \<Rightarrow> Inl e
      | Inr (choices, environment') \<Rightarrow> Inr (prompt w choices, environment'))"
| "py_call m w environment (PCallable n) = Inr (external_call w n environment)"
| "py_call m w environment (PFun t) = Inl NotModelled"
| "py_call m w environment PNone = Inl TypeError"
| "py_call m w environment (PStr s) = Inl TypeError"
| "py_call m w environment (PList xs) = Inl TypeError"
| "py_call m w environment (PDict kvs) = Inl TypeError"
| "py_call m w environment (PTransform v t) = Inl TypeError"
| "call_values m w environment [] = Inr ([], environment)"
| "call_values m w environment (v # vs) =
     (case (if callable v then py_call m w environment v else Inr (v, environment)) of
        Inl e \<Rightarrow> Inl e
      | Inr (c, environment') \<Rightarrow>
          (case call_values m w environment' vs of
             Inl e \<Rightarrow> Inl e
           | Inr (cs, environment'') \<Rightarrow> Inr (c # cs, environment'')))"

section \<open>The visitor\<close>

text \<open>
  \<open>TemplateVisitor.__call__(template)\<close> on a dictionary, with the environment of the visitor.
  \<open>visit_items\<close> is the first loop, \<open>visit_value\<close> what it leaves under one key and
  \<open>visit_elements\<close> its loop over a list; the second loop deletes the keys whose value is
  \<open>None\<close>. The dictionaries are changed in place, so a nested one is replaced by the one
  visited.
\<close>

fun TemplateVisitor_call ::
    "module \<Rightarrow> world \<Rightarrow> env \<Rightarrow> (string \<times> pyval) list \<Rightarrow> error + ((string \<times> pyval) list \<times> env)"
  and visit_items ::
    "module \<Rightarrow> world \<Rightarrow> env \<Rightarrow> (string \<times> pyval) list \<Rightarrow> error + ((string \<times> pyval) list \<times> env)"
  and visit_value :: "module \<Rightarrow> world \<Rightarrow> env \<Rightarrow> pyval \<Rightarrow> error + (pyval \<times> env)"
  and visit_elements :: "module \<Rightarrow> world \<Rightarrow> env \<Rightarrow> pyval list \<Rightarrow> error + (pyval list \<times> env)" where
  "TemplateVisitor_call m w environment template =
     (case visit_items m w environment template of
        Inl e \<Rightarrow> Inl e
      | Inr (template', environment') \<Rightarrow>
          Inr (filter (\<lambda>(key, v). v \<noteq> PNone) template', environment'))"
| "visit_items m w environment [] = Inr ([], environment)"
| "visit_items m w environment ((key, v) # items) =
     (case visit_value m w environment v of
        Inl e \<Rightarrow> Inl e
      | Inr (v', environment') \<Rightarrow>
          (case visit_items m w environment' items of
             Inl e \<Rightarrow> Inl e
           | Inr (items', environment'') \<Rightarrow> Inr ((key, v') # items', environment'')))"
| "visit_value m w environment v =
     (if callable v then py_call m w environment v
      else
        (case v of
           PDict kvs \<Rightarrow>
             (case TemplateVisitor_call m w environment kvs of
                Inl e \<Rightarrow> Inl e
              | Inr (kvs', environment') \<Rightarrow>
                  Inr (if kvs' = [] then PNone else PDict kvs', environment'))
         | PList xs \<Rightarrow>
             (case visit_elements m w environment xs of
                Inl e \<Rightarrow> Inl e
              | Inr (xs', environment') \<Rightarrow>
                  Inr (if list_all (\<lambda>x. x = PNone) xs' then PNone else PList xs', environment'))
         | _ \<Rightarrow> Inr (v, environment)))"
| "visit_elements m w environment [] = Inr ([], environment)"
| "visit_elements m w environment (x # xs) =
     (case (if callable x then py_call m w environment x
            else
              (case x of
                 PDict kvs \<Rightarrow>
                   (case TemplateVisitor_call m w environment kvs of
                      Inl e \<Rightarrow> Inl e
                    | Inr (kvs', environment') \<Rightarrow> Inr (PDict kvs', environment'))
               | _ \<Rightarrow> Inr (x, environment))) of
        Inl e \<Rightarrow> Inl e
      | Inr (x', environment') \<Rightarrow>
          (case visit_elements m w environment' xs of
             Inl e \<Rightarrow> Inl e
           | Inr (xs', environment'') \<Rightarrow> Inr (x' # xs', environment'')))"

text \<open>
  Reading the tree at a key path, \<open>data[k1][k2]...\<close>, with \<open>None\<close> where a key is missing or
  the object reached is not a dictionary.
\<close>

fun lookup_path :: "pyval \<Rightarrow> string list \<Rightarrow> pyval option" where
  "lookup_path v [] = Some v"
| "lookup_path v (k # ks) =
     (case v of
        PDict kvs \<Rightarrow> (case map_of kvs k of None \<Rightarrow> None | Some c \<Rightarrow> lookup_path c ks)
      | _ \<Rightarrow> None)"

text \<open>
  A prompter that always picks the first option offered, and a world with it, no sanitizer
  that changes a value, no other callable that returns one, and sets iterated in the order
  their elements were met.
\<close>

definition pick_first :: "pyval list \<Rightarrow> pyval" where
  "pick_first choices = (case choices of [] \<Rightarrow> PNone | c # _ \<Rightarrow> c)"

definition plain_world :: world where
  "plain_world =
     \<lparr>sanitize = (\<lambda>n key v. v),
      external_call = (\<lambda>n environment. (PNone, environment)),
      prompt = pick_first,
      set_order = (\<lambda>keys. keys)\<rparr>"

section \<open>Shapes of a tree\<close>

text \<open>
  The candidates a value brings as the tail of \<open>MultipleValues.__init__\<close>: its \<open>_values\<close> when
  it is a conflict set, itself otherwise.
\<close>

definition candidates :: "pyval \<Rightarrow> pyval list" where
  "candidates tail = (case tail of PMultiple values \<Rightarrow> values | _ \<Rightarrow> [tail])"


text \<open>
  \<open>conflict_free\<close>: no conflict set occurs anywhere in the value. \<open>conflicts_flat\<close>: no
  conflict set occurring in the value has a conflict set among its candidates.
\<close>

fun conflict_free :: "pyval \<Rightarrow> bool" where
  "conflict_free (PMultiple vs) = False"
| "conflict_free (PList xs) = list_all conflict_free xs"
| "conflict_free (PDict kvs) = list_all (\<lambda>(k, v). conflict_free v) kvs"
| "conflict_free (PRequires t c s kw) = conflict_free t"
| "conflict_free (PTransform v t) = conflict_free v"
| "conflict_free _ = True"

fun conflicts_flat :: "pyval \<Rightarrow> bool" where
  "conflicts_flat (PMultiple vs) = list_all (\<lambda>v. \<not> is_multiple v \<and> conflicts_flat v) vs"
| "conflicts_flat (PList xs) = list_all conflicts_flat xs"
| "conflicts_flat (PDict kvs) = list_all (\<lambda>(k, v). conflicts_flat v) kvs"
| "conflicts_flat (PRequires t c s kw) = conflicts_flat t"
| "conflicts_flat (PTransform v t) = conflicts_flat v"
| "conflicts_flat _ = True"

text \<open>A run of assignments \<open>data[keys] = value\<close>, stopped by the first exception.\<close>

fun assign_all ::
  "module \<Rightarrow> (nat \<Rightarrow> pyval \<Rightarrow> pyval) \<Rightarrow> pyval \<Rightarrow> (string list \<times> pyval) list \<Rightarrow> error + pyval" where
  "assign_all m ext data [] = Inr data"
| "assign_all m ext data ((keys, v) # rest) =
     (case setitem m ext data keys v of
        Inl e \<Rightarrow> Inl e
      | Inr data' \<Rightarrow> assign_all m ext data' rest)"

text \<open>The functions used as transforms make no conflict set out of a value that has none.\<close>

definition closed_ext :: "(nat \<Rightarrow> pyval \<Rightarrow> pyval) \<Rightarrow> bool" where
  "closed_ext ext = (\<forall>n v. conflict_free v \<longrightarrow> conflict_free (ext n v))"

section \<open>Reading a resolution\<close>

text \<open>The raw value an environment holds for a name, unset when the name is unknown.\<close>

definition env_value :: "env \<Rightarrow> string option \<Rightarrow> raw" where
  "env_value environment key = (case environment key of None \<Rightarrow> RNone | Some (v, c) \<Rightarrow> v)"







section \<open>Properties of the builder\<close>

lemma dict_set_same: "map_of kvs k = Some v \<Longrightarrow> dict_set kvs k v = kvs"
  by (induction kvs) (auto split: if_splits)

lemma map_of_dict_set: "map_of (dict_set kvs k v) = (map_of kvs)(k \<mapsto> v)"
  by (induction kvs) (auto simp: fun_eq_iff)

text \<open>
  Claim C10. Assigning an empty mapping, bare or inside a \<open>Transform\<close>, at any key path and in
  either module, returns without touching the tree: no leaf is stored and no dictionary is
  created on the way.
\<close>

theorem setitem_empty_mapping_noop:
  "setitem m ext data keys (PDict []) = Inr data \<and>
   setitem m ext data keys (PTransform (PDict []) t) = Inr data"
  by (simp add: get_transform_def)

lemma assign_equal:
  "keys \<noteq> [] \<Longrightarrow> lookup_path config keys = Some cur \<Longrightarrow> \<not> is_nonstring_sequence v \<Longrightarrow>
   py_eq cur (get_value ext v t) \<Longrightarrow> assign ext config keys v t = Inr config"
proof (induction ext config keys v t rule: assign.induct)
  case (1 ext config v transform)
  then show ?case by simp
next
  case (2 ext config key v transform)
  then show ?case
    by (auto simp: assign_last_def Let_def split: pyval.splits option.splits)
next
  case (3 ext config key k2 keys v transform)
  then show ?case
    by (auto simp: dict_set_same split: pyval.splits option.splits)
qed

text \<open>
  Claim C8. When the slot at a key path holds a value and the scalar assigned there, once
  transformed, is equal to it by \<open>==\<close>, the assignment returns the tree as it was: the leaf is
  kept and no conflict set is made.
\<close>

theorem setitem_equal_scalar_unchanged:
  assumes "keys \<noteq> []" and "lookup_path data keys = Some cur"
    and "get_transform value0 None = (v, t)"
    and "\<not> is_mapping v" and "\<not> is_nonstring_sequence v"
    and "py_eq cur (get_value ext v t)"
  shows "setitem m ext data keys value0 = Inr data"
  using assms assign_equal[of keys data cur v ext t]
  by (auto simp: is_mapping_def split: pyval.splits)

theorem setitem_equal_scalar_unchanged_witness:
  "lookup_path (PDict [(''a'', PDict [(''b'', PRequires (PStr ''{X}'') False None [])])])
     [''a'', ''b''] = Some (PRequires (PStr ''{X}'') False None []) \<and>
   py_eq (PRequires (PStr ''{X}'') False None [])
     (get_value (\<lambda>n x. x) (PStr ''{X}'') TRequires) \<and>
   setitem Utils (\<lambda>n x. x)
     (PDict [(''a'', PDict [(''b'', PRequires (PStr ''{X}'') False None [])])])
     [''a'', ''b''] (PStr ''{X}'') =
   Inr (PDict [(''a'', PDict [(''b'', PRequires (PStr ''{X}'') False None [])])])"
  using setitem_equal_scalar_unchanged
    [of "[''a'', ''b'']" "PDict [(''a'', PDict [(''b'', PRequires (PStr ''{X}'') False None [])])]"
        "PRequires (PStr ''{X}'') False None []" "PStr ''{X}''" "PStr ''{X}''" TRequires
        "\<lambda>n x. x" Utils]
  by (simp add: get_transform_def get_value_def apply_transform_def callable_def
      is_mapping_def is_nonstring_sequence_def kwargs_eq_def)

section \<open>Properties of the visitor\<close>

lemmas eval_defs = callable_def Requires_call_def formatter_parse_def field_name_def pull_def
  push_def sanitized_def str_format_def format_field_def plain_world_def pick_first_def
  render_string_def RenderContext_getitem_def env_setitem_def

text \<open>
  Claim C3. For a tree \<open>{outer: {inner: e}}\<close> whose leaf \<open>e\<close> is callable and resolves to
  \<open>None\<close>, one call of the visitor returns the empty tree: the inner key is deleted, the inner
  dictionary, now empty, is replaced by \<open>None\<close> under the outer key, and the outer key is
  deleted by the same call.
\<close>

theorem visitor_prunes_transitively:
  assumes "callable e" and "py_call m w environment e = Inr (PNone, environment')"
  shows "TemplateVisitor_call m w environment [(outer, PDict [(inner, e)])] =
           Inr ([], environment')"
  using assms by (simp add: callable_def)

theorem visitor_prunes_transitively_witness:
  "callable (PRequires (PStr ''{C}'') False None []) \<and>
   py_call Utils plain_world Map.empty (PRequires (PStr ''{C}'') False None []) =
     Inr (PNone, [Some ''C'' \<mapsto> (RNone, False)]) \<and>
   TemplateVisitor_call Utils plain_world Map.empty
     [(''outer'', PDict [(''inner'', PRequires (PStr ''{C}'') False None [])])] =
     Inr ([], [Some ''C'' \<mapsto> (RNone, False)])"
proof -
  have c: "callable (PRequires (PStr ''{C}'') False None [])"
    by (simp add: callable_def)
  have r: "py_call Utils plain_world Map.empty (PRequires (PStr ''{C}'') False None []) =
     Inr (PNone, [Some ''C'' \<mapsto> (RNone, False)])"
    by (simp add: eval_defs)
  from c r visitor_prunes_transitively[OF c r] show ?thesis by blast
qed

lemma visit_elements_length:
  "visit_elements m w environment xs = Inr (xs', environment') \<Longrightarrow> length xs' = length xs"
proof (induction xs arbitrary: environment xs')
  case Nil
  then show ?case by simp
next
  case (Cons x xs)
  then show ?case
    by (auto split: sum.splits prod.splits if_splits pyval.splits
        simp del: TemplateVisitor_call.simps)
qed

lemma visit_items_append:
  "visit_items m w environment (pre @ post) =
     (case visit_items m w environment pre of
        Inl e \<Rightarrow> Inl e
      | Inr (pre', environment1) \<Rightarrow>
          (case visit_items m w environment1 post of
             Inl e \<Rightarrow> Inl e
           | Inr (post', environment2) \<Rightarrow> Inr (pre' @ post', environment2)))"
proof (induction pre arbitrary: environment)
  case Nil
  then show ?case by (simp split: sum.splits prod.splits)
next
  case (Cons a pre)
  obtain k v where a: "a = (k, v)" by (cases a)
  show ?case
    unfolding a append_Cons visit_items.simps Cons.IH
    by (simp split: sum.splits prod.splits)
qed

text \<open>
  Claim C9. A list under any key of a mapping, whatever precedes and follows it there: when
  the loop over its elements ends with the elements \<open>xs'\<close>, the list has kept its length; the
  key is deleted exactly when every element of \<open>xs'\<close> is \<open>None\<close>, and otherwise it holds
  \<open>xs'\<close> itself, with the elements that are \<open>None\<close> still in it. The other keys are kept
  or deleted by their own values.
\<close>

theorem visitor_sequence_pruned_iff_all_none:
  assumes "visit_items m w environment pre = Inr (pre', environment1)"
    and "visit_elements m w environment1 xs = Inr (xs', environment2)"
    and "visit_items m w environment2 post = Inr (post', environment3)"
  shows "length xs' = length xs \<and>
         TemplateVisitor_call m w environment (pre @ (key, PList xs) # post) =
           Inr (filter (\<lambda>(k, v). v \<noteq> PNone) pre' @
                (if (\<forall>x \<in> set xs'. x = PNone) then [] else [(key, PList xs')]) @
                filter (\<lambda>(k, v). v \<noteq> PNone) post',
                environment3)"
proof -
  have v: "visit_value m w environment1 (PList xs) =
      Inr (if list_all (\<lambda>x. x = PNone) xs' then PNone else PList xs', environment2)"
    using assms(2) by (simp add: callable_def)
  have "visit_items m w environment1 ((key, PList xs) # post) =
      Inr ((key, if list_all (\<lambda>x. x = PNone) xs' then PNone else PList xs') # post', environment3)"
    unfolding visit_items.simps v using assms(3) by simp
  then have "visit_items m w environment (pre @ (key, PList xs) # post) =
      Inr (pre' @ (key, if list_all (\<lambda>x. x = PNone) xs' then PNone else PList xs') # post',
           environment3)"
    using assms(1) by (simp add: visit_items_append del: visit_items.simps)
  then show ?thesis
    using visit_elements_length[OF assms(2)]
    by (simp add: list_all_iff del: visit_items.simps)
qed

theorem visitor_sequence_pruned_iff_all_none_witness:
  "visit_items Utils plain_world [Some ''A'' \<mapsto> (RStr ''x'', False)]
     [(''a'', PRequires (PStr ''{A}'') False None [])] =
     Inr ([(''a'', PStr ''x'')], [Some ''A'' \<mapsto> (RStr ''x'', False)]) \<and>
   visit_elements Utils plain_world [Some ''A'' \<mapsto> (RStr ''x'', False)]
     [PRequires (PStr ''{C}'') False None [], PRequires (PStr ''{A}'') False None []] =
     Inr ([PNone, PStr ''x''],
          [Some ''A'' \<mapsto> (RStr ''x'', False), Some ''C'' \<mapsto> (RNone, False)]) \<and>
   visit_items Utils plain_world
     [Some ''A'' \<mapsto> (RStr ''x'', False), Some ''C'' \<mapsto> (RNone, False)]
     [(''j'', PList [PRequires (PStr ''{C}'') False None []])] =
     Inr ([(''j'', PNone)],
          [Some ''A'' \<mapsto> (RStr ''x'', False), Some ''C'' \<mapsto> (RNone, False)]) \<and>
   TemplateVisitor_call Utils plain_world [Some ''A'' \<mapsto> (RStr ''x'', False)]
     [(''a'', PRequires (PStr ''{A}'') False None []),
      (''k'', PList [PRequires (PStr ''{C}'') False None [],
                     PRequires (PStr ''{A}'') False None []]),
      (''j'', PList [PRequires (PStr ''{C}'') False None []])] =
     Inr ([(''a'', PStr ''x''), (''k'', PList [PNone, PStr ''x''])],
          [Some ''A'' \<mapsto> (RStr ''x'', False), Some ''C'' \<mapsto> (RNone, False)])"
proof -
  have p: "visit_items Utils plain_world [Some ''A'' \<mapsto> (RStr ''x'', False)]
     [(''a'', PRequires (PStr ''{A}'') False None [])] =
     Inr ([(''a'', PStr ''x'')], [Some ''A'' \<mapsto> (RStr ''x'', False)])"
    by (simp add: eval_defs)
  have r: "visit_elements Utils plain_world [Some ''A'' \<mapsto> (RStr ''x'', False)]
     [PRequires (PStr ''{C}'') False None [], PRequires (PStr ''{A}'') False None []] =
     Inr ([PNone, PStr ''x''],
          [Some ''A'' \<mapsto> (RStr ''x'', False), Some ''C'' \<mapsto> (RNone, False)])"
    by (simp add: eval_defs)
  have q: "visit_items Utils plain_world
     [Some ''A'' \<mapsto> (RStr ''x'', False), Some ''C'' \<mapsto> (RNone, False)]
     [(''j'', PList [PRequires (PStr ''{C}'') False None []])] =
     Inr ([(''j'', PNone)],
          [Some ''A'' \<mapsto> (RStr ''x'', False), Some ''C'' \<mapsto> (RNone, False)])"
    by (simp add: eval_defs)
  from p r q visitor_sequence_pruned_iff_all_none[OF p r q, of "''k''"] show ?thesis by simp
qed

section \<open>Conflict sets in the tree\<close>

lemma conflict_free_flat: "conflict_free v \<Longrightarrow> conflicts_flat v \<and> \<not> is_multiple v"
  by (induction v rule: conflict_free.induct) (auto simp: list_all_iff is_multiple_def)

lemma MultipleValues_init_flat:
  "\<not> is_multiple h \<Longrightarrow> conflicts_flat h \<Longrightarrow> conflicts_flat t \<Longrightarrow>
   conflicts_flat (MultipleValues_init h t)"
  by (cases t) (auto simp: MultipleValues_init_def is_multiple_def)

lemma get_value_conflict_free:
  "closed_ext ext \<Longrightarrow> conflict_free v \<Longrightarrow> conflict_free (get_value ext v t)"
  by (cases v; cases t)
     (auto simp: get_value_def apply_transform_def closed_ext_def callable_def split: transform.splits)

lemma append_new_flat:
  "closed_ext ext \<Longrightarrow> conflicts_flat cur \<Longrightarrow> list_all conflict_free vs \<Longrightarrow>
   append_new ext t cur vs = Inr cur' \<Longrightarrow> conflicts_flat cur'"
proof (induction vs arbitrary: cur)
  case Nil
  then show ?case by simp
next
  case (Cons v vs)
  have v: "conflicts_flat (get_value ext v t)"
    using Cons.prems(1,3) conflict_free_flat get_value_conflict_free by auto
  show ?case
  proof (cases "py_contains cur v")
    case (Inl e)
    then show ?thesis using Cons.prems(4) by simp
  next
    case (Inr b)
    show ?thesis
    proof (cases b)
      case True
      then show ?thesis using Inr Cons by simp
    next
      case False
      then obtain xs where xs: "cur = PList xs"
        using Inr Cons.prems(4) by (auto split: pyval.splits)
      then have "append_new ext t (PList (xs @ [get_value ext v t])) vs = Inr cur'"
        using Inr False Cons.prems(4) by simp
      moreover have "conflicts_flat (PList (xs @ [get_value ext v t]))"
        using Cons.prems(2) xs v by simp
      ultimately show ?thesis using Cons.IH[of "PList (xs @ [get_value ext v t])"] Cons.prems(1,3) by simp
    qed
  qed
qed

lemma dict_set_flat:
  "list_all (\<lambda>(k, v). conflicts_flat v) kvs \<Longrightarrow> conflicts_flat c \<Longrightarrow>
   list_all (\<lambda>(k, v). conflicts_flat v) (dict_set kvs key c)"
  by (induction kvs) auto

lemma map_of_flat:
  "list_all (\<lambda>(k, v). conflicts_flat v) kvs \<Longrightarrow> map_of kvs key = Some c \<Longrightarrow> conflicts_flat c"
  by (induction kvs) (auto split: if_splits)

lemma py_iter_conflict_free: "conflict_free v \<Longrightarrow> list_all conflict_free (py_iter v)"
  by (cases v) (auto simp: py_iter_def)

lemma assign_last_flat:
  assumes "closed_ext ext" and "list_all (\<lambda>(k, v). conflicts_flat v) kvs" and "conflict_free v"
    and "assign_last ext kvs key v t = Inr kvs'"
  shows "list_all (\<lambda>(k, v). conflicts_flat v) kvs'"
proof (cases "is_nonstring_sequence v")
  case True
  define cur where "cur = (case map_of kvs key of None \<Rightarrow> PList [] | Some c \<Rightarrow> c)"
  have cur: "conflicts_flat cur"
    using assms(2) map_of_flat by (auto simp: cur_def split: option.splits)
  from True assms(4) obtain cur' where
    a: "append_new ext t cur (py_iter v) = Inr cur'" and k: "kvs' = dict_set kvs key cur'"
    by (auto simp: assign_last_def Let_def cur_def split: if_splits sum.splits)
  have "conflicts_flat cur'"
    using append_new_flat[OF assms(1) cur py_iter_conflict_free[OF assms(3)] a] .
  then show ?thesis using k assms(2) dict_set_flat by simp
next
  case False
  have "conflicts_flat (get_value ext v t)" "\<not> is_multiple (get_value ext v t)"
    using conflict_free_flat[OF get_value_conflict_free[OF assms(1,3)]] by auto
  then show ?thesis
    using False assms
    by (auto simp: assign_last_def Let_def split: if_splits option.splits
        intro!: dict_set_flat MultipleValues_init_flat dest: map_of_flat)
qed

lemma assign_flat:
  "closed_ext ext \<Longrightarrow> conflicts_flat config \<Longrightarrow> conflict_free v \<Longrightarrow>
   assign ext config keys v t = Inr config' \<Longrightarrow> conflicts_flat config'"
proof (induction ext config keys v t arbitrary: config' rule: assign.induct)
  case (1 ext config v transform)
  then show ?case by simp
next
  case (2 ext config key v transform)
  then show ?case
    by (auto split: pyval.splits sum.splits dest: assign_last_flat)
next
  case (3 ext config key k2 keys v transform)
  from "3.prems"(4) obtain kvs where c: "config = PDict kvs"
    by (auto split: pyval.splits)
  define child where "child = (case map_of kvs key of None \<Rightarrow> PDict [] | Some c \<Rightarrow> c)"
  from "3.prems"(4) c obtain c' where
    a: "assign ext child (k2 # keys) v transform = Inr c'" and r: "config' = PDict (dict_set kvs key c')"
    by (auto simp: child_def split: sum.splits)
  have kvs: "list_all (\<lambda>(k, v). conflicts_flat v) kvs"
    using "3.prems"(2) c by simp
  then have "conflicts_flat child"
    using map_of_flat by (auto simp: child_def split: option.splits)
  then have "conflicts_flat c'"
    using "3.IH"[OF c "3.prems"(1) _ "3.prems"(3)] a by (simp add: child_def)
  then show ?case using r kvs dict_set_flat by simp
qed

lemma setitem_flat_aux:
  "(closed_ext ext \<longrightarrow> conflicts_flat data \<longrightarrow> conflict_free value0 \<longrightarrow>
      (\<forall>data'. setitem m ext data keys value0 = Inr data' \<longrightarrow> conflicts_flat data'))"
  "(closed_ext ext \<longrightarrow> conflicts_flat data \<longrightarrow> list_all (\<lambda>(k, v). conflict_free v) items \<longrightarrow>
      (\<forall>data'. setitem_items m ext data keys t items = Inr data' \<longrightarrow> conflicts_flat data'))"
proof (induction m ext data keys value0 and m ext data keys t items rule: setitem_setitem_items.induct)
  case (1 m ext data keys value0)
  show ?case
  proof (intro impI allI)
    fix data'
    assume a: "closed_ext ext" "conflicts_flat data" "conflict_free value0"
      "setitem m ext data keys value0 = Inr data'"
    obtain v t where g: "get_transform value0 None = (v, t)" by fastforce
    have cf: "conflict_free v"
      using a(3) g by (auto simp: get_transform_def split: pyval.splits)
    show "conflicts_flat data'"
    proof (cases "is_mapping v")
      case True
      then obtain items where v: "v = PDict items" by (auto simp: is_mapping_def split: pyval.splits)
      with 1[OF g[symmetric] v] a cf g show ?thesis by simp
    next
      case False
      then have "assign ext data keys v t = Inr data'"
        using a(4) g by (auto simp: is_mapping_def split: pyval.splits)
      then show ?thesis using assign_flat a cf by blast
    qed
  qed
next
  case (2 m ext data keys transform)
  then show ?case by simp
next
  case (3 m ext data keys transform k v items)
  show ?case
  proof (intro impI allI)
    fix data'
    assume a: "closed_ext ext" "conflicts_flat data"
      "list_all (\<lambda>(k, v). conflict_free v) ((k, v) # items)"
      "setitem_items m ext data keys transform ((k, v) # items) = Inr data'"
    have w: "conflict_free (wrap_item m v transform)"
      using a(3) by (auto simp: wrap_item_def split: module.splits pyval.splits)
    from a(4) obtain d where
      s: "setitem m ext data (keys @ [k]) (wrap_item m v transform) = Inr d" and
      r: "setitem_items m ext d keys transform items = Inr data'"
      by (auto split: sum.splits simp del: setitem.simps)
    have "conflicts_flat d"
      using "3.IH"(1) a(1,2) w s by blast
    then show "conflicts_flat data'"
      using "3.IH"(2)[OF s] a(1,3) r by simp
  qed
qed


lemma assign_all_flat:
  "closed_ext ext \<Longrightarrow> conflicts_flat data \<Longrightarrow> list_all (\<lambda>(keys, v). conflict_free v) assignments \<Longrightarrow>
   assign_all m ext data assignments = Inr data' \<Longrightarrow> conflicts_flat data'"
proof (induction assignments arbitrary: data)
  case Nil
  then show ?case by simp
next
  case (Cons a assignments)
  obtain keys v where a: "a = (keys, v)" by (cases a)
  from Cons.prems(4) a obtain d where
    s: "setitem m ext data keys v = Inr d" and r: "assign_all m ext d assignments = Inr data'"
    by (auto split: sum.splits simp del: setitem.simps)
  have "conflicts_flat d"
    using setitem_flat_aux(1)[of ext data v m keys] Cons.prems(1,2,3) a s by simp
  then show ?case using Cons.IH Cons.prems(1,3) r by simp
qed

lemma MultipleValues_init_candidates:
  "MultipleValues_init h t = PMultiple (h # candidates t)"
  by (cases t) (simp_all add: MultipleValues_init_def candidates_def)

text \<open>
  Claim C4, as the code has it. \<open>MultipleValues(head, tail)\<close> with a conflict set as tail is
  the flat list of the head followed by the candidates of the tail, and it has no conflict set
  among its candidates when the head is not one and the operands have none nested. The head is
  stored as it is given. So a tree built from the empty one by assignments of values that
  hold no conflict set, with transforms that make none, never has a conflict set among the
  candidates of another.
\<close>

theorem conflict_sets_flat_for_plain_heads:
  "(MultipleValues_init h (PMultiple vs) = PMultiple (h # vs) \<and>
    (\<not> is_multiple h \<and> conflicts_flat h \<and> conflicts_flat (PMultiple vs) \<longrightarrow>
       conflicts_flat (MultipleValues_init h (PMultiple vs)))) \<and>
   (closed_ext ext \<and> list_all (\<lambda>(keys, v). conflict_free v) assignments \<and>
    assign_all m ext (PDict []) assignments = Inr data \<longrightarrow> conflicts_flat data)"
  using assign_all_flat[of ext "PDict []" assignments m data]
    MultipleValues_init_flat[of h "PMultiple vs"]
  by (simp add: MultipleValues_init_def)

theorem conflict_sets_flat_for_plain_heads_witness:
  "(\<not> is_multiple (PStr ''a'') \<and> conflicts_flat (PStr ''a'') \<and>
    conflicts_flat (PMultiple [PStr ''b'', PStr ''c'']) \<and>
    conflicts_flat (MultipleValues_init (PStr ''a'') (PMultiple [PStr ''b'', PStr ''c''])) \<and>
    MultipleValues_init (PStr ''a'') (PMultiple [PStr ''b'', PStr ''c'']) =
      PMultiple [PStr ''a'', PStr ''b'', PStr ''c'']) \<and>
   (closed_ext (\<lambda>n x. x) \<and>
    list_all (\<lambda>(keys, v). conflict_free v)
      [([''k''], PStr ''{X}''), ([''k''], PStr ''{Y}''), ([''k''], PStr ''{Z}'')] \<and>
    assign_all Utils (\<lambda>n x. x) (PDict [])
      [([''k''], PStr ''{X}''), ([''k''], PStr ''{Y}''), ([''k''], PStr ''{Z}'')] =
      Inr (PDict [(''k'', PMultiple [PRequires (PStr ''{Z}'') False None [],
                                    PRequires (PStr ''{Y}'') False None [],
                                    PRequires (PStr ''{X}'') False None []])]) \<and>
    conflicts_flat (PDict [(''k'', PMultiple [PRequires (PStr ''{Z}'') False None [],
                                    PRequires (PStr ''{Y}'') False None [],
                                    PRequires (PStr ''{X}'') False None []])]))"
  using conflict_sets_flat_for_plain_heads[of "PStr ''a''" "[PStr ''b'', PStr ''c'']" "\<lambda>n x. x"
      "[([''k''], PStr ''{X}''), ([''k''], PStr ''{Y}''), ([''k''], PStr ''{Z}'')]" Utils
      "PDict [(''k'', PMultiple [PRequires (PStr ''{Z}'') False None [],
                                    PRequires (PStr ''{Y}'') False None [],
                                    PRequires (PStr ''{X}'') False None []])]"]
  by (simp add: closed_ext_def is_multiple_def MultipleValues_init_def get_transform_def
      assign_last_def get_value_def apply_transform_def callable_def is_nonstring_sequence_def
      kwargs_eq_def)

text \<open>
  A conflict set given as head is kept whole: the constructor nests it, and so does the
  assignment of a conflict set to a slot that holds another value.
\<close>

theorem conflict_set_head_nests:
  "MultipleValues_init (PMultiple [PStr ''a'', PStr ''b'']) (PMultiple [PStr ''c'', PStr ''d'']) =
     PMultiple [PMultiple [PStr ''a'', PStr ''b''], PStr ''c'', PStr ''d''] \<and>
   \<not> conflicts_flat
       (MultipleValues_init (PMultiple [PStr ''a'', PStr ''b''])
          (PMultiple [PStr ''c'', PStr ''d''])) \<and>
   setitem Utils (\<lambda>n x. x) (PDict [(''k'', PRequires (PStr ''{X}'') False None [])]) [''k'']
       (PMultiple [PStr ''a'', PStr ''b'']) =
     Inr (PDict [(''k'', PMultiple [PMultiple [PStr ''a'', PStr ''b''],
                                   PRequires (PStr ''{X}'') False None []])])"
  by (simp add: is_multiple_def MultipleValues_init_def get_transform_def
      assign_last_def get_value_def apply_transform_def callable_def is_nonstring_sequence_def)

lemma assign_conflict:
  "keys \<noteq> [] \<Longrightarrow> lookup_path config keys = Some cur \<Longrightarrow> \<not> is_nonstring_sequence v \<Longrightarrow>
   \<not> py_eq cur (get_value ext v t) \<Longrightarrow>
   \<exists>config'. assign ext config keys v t = Inr config' \<and>
     lookup_path config' keys = Some (MultipleValues_init (get_value ext v t) cur)"
proof (induction ext config keys v t rule: assign.induct)
  case (1 ext config v transform)
  then show ?case by simp
next
  case (2 ext config key v transform)
  from "2.prems"(2) obtain kvs where c: "config = PDict kvs" "map_of kvs key = Some cur"
    by (auto split: pyval.splits option.splits)
  then have "assign ext config [key] v transform =
      Inr (PDict (dict_set kvs key (MultipleValues_init (get_value ext v transform) cur)))"
    using "2.prems"(3,4) by (simp add: assign_last_def Let_def)
  then show ?case using c by (simp add: map_of_dict_set)
next
  case (3 ext config key k2 keys v transform)
  from "3.prems"(2) obtain kvs c where
    c: "config = PDict kvs" "map_of kvs key = Some c" "lookup_path c (k2 # keys) = Some cur"
    by (auto split: pyval.splits option.splits)
  from "3.IH"[OF c(1) _ _ "3.prems"(3,4)] c obtain c' where
    "assign ext c (k2 # keys) v transform = Inr c'"
    "lookup_path c' (k2 # keys) = Some (MultipleValues_init (get_value ext v transform) cur)"
    by auto
  then show ?case using c by (simp add: map_of_dict_set)
qed

text \<open>
  Claim C2. When the slot at a key path holds a value and a scalar assigned there is, once
  transformed, different from it by \<open>==\<close>, the slot becomes the conflict set of the new value
  followed by the candidates of the old one, which is the old value itself when it was not a
  conflict set. When its candidates resolve and the prompter picks the first option, calling
  that conflict set gives what the new value resolves to.
\<close>

theorem conflict_set_most_recent_first:
  assumes "keys \<noteq> []" and "lookup_path data keys = Some cur"
    and "get_transform value0 None = (v, t)"
    and "\<not> is_mapping v" and "\<not> is_nonstring_sequence v"
    and "\<not> py_eq cur (get_value ext v t)"
    and "prompt w = pick_first"
    and "call_values m' w environment (get_value ext v t # candidates cur) =
           Inr (choices, environment')"
  shows "\<exists>data' first.
           setitem m ext data keys value0 = Inr data' \<and>
           lookup_path data' keys = Some (PMultiple (get_value ext v t # candidates cur)) \<and>
           (\<not> is_multiple cur \<longrightarrow> candidates cur = [cur]) \<and>
           (if callable (get_value ext v t)
            then py_call m' w environment (get_value ext v t)
            else Inr (get_value ext v t, environment)) = Inr first \<and>
           py_call m' w environment (PMultiple (get_value ext v t # candidates cur)) =
             Inr (fst first, environment')"
proof -
  from assign_conflict[OF assms(1,2,5,6)] obtain data' where
    d: "assign ext data keys v t = Inr data'"
       "lookup_path data' keys = Some (MultipleValues_init (get_value ext v t) cur)"
    by blast
  have s: "setitem m ext data keys value0 = Inr data'"
    using d(1) assms(3,4) by (auto simp: is_mapping_def split: pyval.splits)
  from assms(8) obtain first rest where
    f: "(if callable (get_value ext v t)
            then py_call m' w environment (get_value ext v t)
            else Inr (get_value ext v t, environment)) = Inr first"
       "choices = fst first # rest"
    by (auto split: sum.splits)
  have "py_call m' w environment (PMultiple (get_value ext v t # candidates cur)) =
             Inr (fst first, environment')"
    using assms(7,8) f(2) by (simp add: pick_first_def)
  moreover have "\<not> is_multiple cur \<longrightarrow> candidates cur = [cur]"
    by (cases cur) (simp_all add: is_multiple_def candidates_def)
  ultimately show ?thesis
    using s d(2) f(1) by (auto simp: MultipleValues_init_candidates simp del: setitem.simps)
qed

theorem conflict_set_most_recent_first_witness:
  "lookup_path (PDict [(''project'', PDict [(''name'', PRequires (PStr ''{PROJECT_NAME}'') False None [])])])
     [''project'', ''name''] = Some (PRequires (PStr ''{PROJECT_NAME}'') False None []) \<and>
   \<not> py_eq (PRequires (PStr ''{PROJECT_NAME}'') False None [])
       (get_value (\<lambda>n x. x) (PStr ''{OTHER_NAME}'') TRequires) \<and>
   call_values Utils plain_world
     [Some ''PROJECT_NAME'' \<mapsto> (RStr ''demo'', False), Some ''OTHER_NAME'' \<mapsto> (RStr ''demo2'', False)]
     [PRequires (PStr ''{OTHER_NAME}'') False None [], PRequires (PStr ''{PROJECT_NAME}'') False None []] =
     Inr ([PStr ''demo2'', PStr ''demo''],
          [Some ''PROJECT_NAME'' \<mapsto> (RStr ''demo'', False), Some ''OTHER_NAME'' \<mapsto> (RStr ''demo2'', False)]) \<and>
   setitem Utils (\<lambda>n x. x)
     (PDict [(''project'', PDict [(''name'', PRequires (PStr ''{PROJECT_NAME}'') False None [])])])
     [''project'', ''name''] (PStr ''{OTHER_NAME}'') =
     Inr (PDict [(''project'', PDict [(''name'',
            PMultiple [PRequires (PStr ''{OTHER_NAME}'') False None [],
                       PRequires (PStr ''{PROJECT_NAME}'') False None []])])]) \<and>
   py_call Utils plain_world
     [Some ''PROJECT_NAME'' \<mapsto> (RStr ''demo'', False), Some ''OTHER_NAME'' \<mapsto> (RStr ''demo2'', False)]
     (PMultiple [PRequires (PStr ''{OTHER_NAME}'') False None [],
                 PRequires (PStr ''{PROJECT_NAME}'') False None []]) =
     Inr (PStr ''demo2'',
          [Some ''PROJECT_NAME'' \<mapsto> (RStr ''demo'', False), Some ''OTHER_NAME'' \<mapsto> (RStr ''demo2'', False)])"
  using conflict_set_most_recent_first
    [of "[''project'', ''name'']"
        "PDict [(''project'', PDict [(''name'', PRequires (PStr ''{PROJECT_NAME}'') False None [])])]"
        "PRequires (PStr ''{PROJECT_NAME}'') False None []" "PStr ''{OTHER_NAME}''"
        "PStr ''{OTHER_NAME}''" TRequires "\<lambda>n x. x" plain_world Utils
        "[Some ''PROJECT_NAME'' \<mapsto> (RStr ''demo'', False), Some ''OTHER_NAME'' \<mapsto> (RStr ''demo2'', False)]"
        "[PStr ''demo2'', PStr ''demo'']"
        "[Some ''PROJECT_NAME'' \<mapsto> (RStr ''demo'', False), Some ''OTHER_NAME'' \<mapsto> (RStr ''demo2'', False)]"
        Utils]
  by (simp add: eval_defs get_transform_def get_value_def apply_transform_def
      is_mapping_def is_nonstring_sequence_def kwargs_eq_def candidates_def assign_last_def
      MultipleValues_init_def)

text \<open>
  Claim C5 fails on the code. The membership test of the sequence branch is made on the value
  as it is assigned, and the list holds the transformed values: a string assigned under the
  default transform is never found among the \<open>Requires\<close> objects, so assigning \<open>["{X}"]\<close> a
  second time appends a second, equal element.
\<close>

theorem sequence_reassign_appends_duplicate:
  "setitem m ext (PDict []) [''k''] (PList [PStr ''{X}'']) =
     Inr (PDict [(''k'', PList [PRequires (PStr ''{X}'') False None []])]) \<and>
   setitem m ext (PDict [(''k'', PList [PRequires (PStr ''{X}'') False None []])]) [''k'']
       (PList [PStr ''{X}'']) =
     Inr (PDict [(''k'', PList [PRequires (PStr ''{X}'') False None [],
                               PRequires (PStr ''{X}'') False None []])]) \<and>
   py_eq (PRequires (PStr ''{X}'') False None []) (PRequires (PStr ''{X}'') False None [])"
  by (simp add: get_transform_def assign_last_def is_nonstring_sequence_def is_mapping_def
      py_iter_def py_contains_def get_value_def apply_transform_def callable_def kwargs_eq_def)

lemma append_new_present:
  "list_all (\<lambda>v. list_ex (\<lambda>x. py_eq x v) xs) vs \<Longrightarrow> append_new ext t (PList xs) vs = Inr (PList xs)"
  by (induction vs) (simp_all add: py_contains_def)

section \<open>Properties of resolution\<close>

lemma pull_value: "fst (pull environment key) = env_value environment key"
  by (simp add: pull_def env_value_def split: option.splits)

lemma pull_env_value: "env_value (snd (pull environment key)) = env_value environment"
  by (auto simp: pull_def env_value_def fun_eq_iff split: option.splits)








lemma push_other: "key \<noteq> name \<Longrightarrow> push environment name v c key = environment key"
  by (simp add: push_def split: option.splits)






lemma prun_literal:
  "list_all (\<lambda>c. c \<noteq> CHR ''{'' \<and> c \<noteq> CHR ''}'') t \<Longrightarrow>
   prun (SLit lit) t = Inr (if lit @ t = [] then [] else [(lit @ t, None)])"
  by (induction t arbitrary: lit) auto

lemma formatter_parse_literal:
  "list_all (\<lambda>c. c \<noteq> CHR ''{'' \<and> c \<noteq> CHR ''}'') t \<Longrightarrow>
   formatter_parse t = Inr (if t = [] then [] else [(t, None)])"
  using prun_literal[of t "[]"] by (simp add: formatter_parse_def)

lemma Requires_call_literal:
  "list_all (\<lambda>c. c \<noteq> CHR ''{'' \<and> c \<noteq> CHR ''}'') t \<Longrightarrow>
   Requires_call w environment (PStr t) confirmed sanitizer kwargs = Inr (PStr t, environment)"
  by (simp add: Requires_call_def formatter_parse_literal field_name_def str_format_def)





lemma set_kwargs_None:
  "set_kwargs environment kwargs confirmed keys None = environment None"
proof (induction keys arbitrary: environment)
  case Nil
  then show ?case by simp
next
  case (Cons k keys)
  show ?case
  proof (cases k)
    case None
    then show ?thesis using Cons by simp
  next
    case (Some n)
    show ?thesis
    proof (cases "map_of kwargs n")
      case None
      then show ?thesis using Cons Some by simp
    next
      case v: (Some v)
      have "set_kwargs environment kwargs confirmed (k # keys) None =
            set_kwargs (env_setitem environment (Some n) v confirmed) kwargs confirmed keys None"
        using Some v by simp
      also have "\<dots> = env_setitem environment (Some n) v confirmed None"
        by (rule Cons.IH)
      also have "\<dots> = environment None"
        by (simp add: env_setitem_def push_other)
      finally show ?thesis .
    qed
  qed
qed



lemma unpack_context_spec:
  assumes "unpack_context w sanitizer environment keys = (res, environment')"
  shows "env_value environment' = env_value environment \<and>
         (\<forall>key. environment key \<noteq> None \<or> key \<notin> set keys \<longrightarrow> environment' key = environment key) \<and>
         res = (if list_all (\<lambda>k. truthy (env_value environment k)) keys
                then Inr (map (\<lambda>k. (k, sanitized w sanitizer k (env_value environment k))) keys)
                else Inl ValueError)"
  using assms
proof (induction keys arbitrary: environment res environment')
  case Nil
  then show ?case by auto
next
  case (Cons k keys)
  obtain v e1 where p: "pull environment k = (v, e1)" by fastforce
  have v: "v = env_value environment k" and e1: "env_value e1 = env_value environment"
    using pull_value[of environment k] pull_env_value[of environment k] p by simp_all
  have e1k: "environment key \<noteq> None \<or> key \<noteq> k \<Longrightarrow> e1 key = environment key" for key
    using p by (auto simp: pull_def split: option.splits)
  show ?case
  proof (cases "truthy v")
    case False
    then have "res = Inl ValueError" "environment' = e1"
      using Cons.prems p by (simp_all add: RenderContext_getitem_def)
    then show ?thesis using False v e1 e1k by auto
  next
    case True
    obtain res1 e2 where u: "unpack_context w sanitizer e1 keys = (res1, e2)" by fastforce
    from Cons.IH[OF u] have
      ih1: "env_value e2 = env_value e1" and
      ih2: "\<forall>key. e1 key \<noteq> None \<or> key \<notin> set keys \<longrightarrow> e2 key = e1 key" and
      ih3: "res1 = (if list_all (\<lambda>k. truthy (env_value e1 k)) keys
                then Inr (map (\<lambda>k. (k, sanitized w sanitizer k (env_value e1 k))) keys)
                else Inl ValueError)"
      by simp_all
    have r: "environment' = e2"
      "res = (case res1 of Inl e \<Rightarrow> Inl e
              | Inr kvs \<Rightarrow> Inr ((k, sanitized w sanitizer k v) # kvs))"
      using Cons.prems p True u by (auto simp: RenderContext_getitem_def split: sum.splits)
    have a: "env_value environment' = env_value environment"
      using r(1) ih1 e1 by simp
    have b: "\<forall>key. environment key \<noteq> None \<or> key \<notin> set (k # keys) \<longrightarrow>
                environment' key = environment key"
    proof (intro allI impI)
      fix key
      assume h: "environment key \<noteq> None \<or> key \<notin> set (k # keys)"
      then have "e1 key = environment key" using e1k[of key] by auto
      moreover have "e2 key = e1 key" using ih2 h calculation by auto
      ultimately show "environment' key = environment key" using r(1) by simp
    qed
    have c: "res = (if list_all (\<lambda>k. truthy (env_value environment k)) (k # keys)
                then Inr (map (\<lambda>k. (k, sanitized w sanitizer k (env_value environment k))) (k # keys))
                else Inl ValueError)"
      using r(2) ih3 True v e1 by simp
    from a b c show ?thesis by blast
  qed
qed


lemma arranges_single: "arranges w \<Longrightarrow> set_order w [x] = [x]"
proof -
  assume "arranges w"
  then have d: "distinct (set_order w [x])" and s: "set (set_order w [x]) = {x}"
    by (simp_all add: arranges_def)
  show ?thesis
  proof (cases "set_order w [x]")
    case Nil
    then show ?thesis using s by simp
  next
    case (Cons a as)
    then have "a = x" using s by auto
    moreover have "as = []"
    proof (cases as)
      case Nil
      then show ?thesis .
    next
      case (Cons b bs)
      then show ?thesis using d s \<open>set_order w [x] = a # as\<close> \<open>a = x\<close> by auto
    qed
    ultimately show ?thesis using Cons by simp
  qed
qed







lemma unpack_context_falsy:
  "key \<in> set keys \<Longrightarrow> \<not> truthy (env_value environment key) \<Longrightarrow>
   \<exists>e. unpack_context w sanitizer environment keys = (Inl ValueError, e)"
proof -
  assume k: "key \<in> set keys" and f: "\<not> truthy (env_value environment key)"
  obtain res e where u: "unpack_context w sanitizer environment keys = (res, e)"
    by fastforce
  have "\<not> list_all (\<lambda>k. truthy (env_value environment k)) keys"
    using k f by (auto simp: list_all_iff)
  then have "res = Inl ValueError" using unpack_context_spec[OF u] by simp
  then show ?thesis using u by blast
qed

lemma render_string_literal:
  assumes "t \<noteq> []" and "list_all (\<lambda>c. c \<noteq> CHR ''{'' \<and> c \<noteq> CHR ''}'') t" and "arranges w"
  shows "render_string w environment confirmed sanitizer (PStr t) kwargs =
     (if truthy (env_value environment None) then Inr (PStr t, environment)
      else Inr (PNone, snd (pull environment None)))"
  using assms(1) arranges_single[OF assms(3), of None]
  by (auto simp: render_string_def formatter_parse_literal[OF assms(2)] field_name_def
      str_format_def RenderContext_getitem_def pull_def env_value_def split: option.splits)

text \<open>
  \<open>render_string\<close> of \<open>templates.py\<close> on any template with an item of literal text alone,
  in an environment with nothing set under \<open>None\<close>: the result is \<open>None\<close>, whatever the
  placeholders hold.
\<close>

lemma render_string_literal_item_none:
  assumes "formatter_parse t = Inr items" and "(lit, None) \<in> set items"
    and "\<not> truthy (env_value environment None)" and "arranges w"
  shows "\<exists>e. render_string w environment confirmed sanitizer (PStr t) kwargs = Inr (PNone, e)"
proof -
  define keys where "keys = set_order w (remdups (map field_name items))"
  have "None \<in> set (map field_name items)"
    using assms(2) by (force simp: field_name_def)
  then have k: "None \<in> set keys"
    using assms(4) by (simp add: keys_def arranges_def)
  have "\<not> truthy (env_value (set_kwargs environment kwargs confirmed keys) None)"
    using assms(3) by (simp add: env_value_def set_kwargs_None)
  from unpack_context_falsy[OF k this] obtain e where
    "unpack_context w sanitizer (set_kwargs environment kwargs confirmed keys) keys =
       (Inl ValueError, e)" by blast
  then show ?thesis
    using assms(1) by (simp add: render_string_def keys_def[symmetric] Let_def)
qed


text \<open>
  Claim C6 fails on \<open>templates.py\<close>. For the template \<open>"abc"\<close> the set \<open>_keys\<close> is \<open>{None}\<close>;
  unpacking the context indexes the environment with \<open>None\<close>, no name of an environment is
  \<open>None\<close>, the entry is unset and the result is \<open>None\<close>. \<open>utils.py\<close>, which skips the key
  \<open>None\<close>, returns \<open>"abc"\<close>.
\<close>

theorem render_string_literal_template_none:
  "render_string plain_world Map.empty False None (PStr ''abc'') [] =
     Inr (PNone, [None \<mapsto> (RNone, False)]) \<and>
   Requires_call plain_world Map.empty (PStr ''abc'') False None [] =
     Inr (PStr ''abc'', Map.empty)"
  by (simp add: eval_defs)

text \<open>
  Claim C1 fails on \<open>templates.py\<close> for the same reason, whenever literal text follows the last
  placeholder: with \<open>A\<close> set to \<open>"v"\<close>, the template \<open>"{A}-x"\<close> resolves to \<open>None\<close>, and to
  \<open>"v-x"\<close> in \<open>utils.py\<close>.
\<close>

theorem render_string_drops_trailing_literal:
  "render_string plain_world [Some ''A'' \<mapsto> (RStr ''v'', False)] False None (PStr ''{A}-x'') [] =
     Inr (PNone, [Some ''A'' \<mapsto> (RStr ''v'', False), None \<mapsto> (RNone, False)]) \<and>
   Requires_call plain_world [Some ''A'' \<mapsto> (RStr ''v'', False)] (PStr ''{A}-x'') False None [] =
     Inr (PStr ''v-x'', [Some ''A'' \<mapsto> (RStr ''v'', False)])"
  by (simp add: eval_defs)


end
